theory Spec2Isabelle
  imports Complex_Main "HOL-Library.Multiset" "HOL-Library.Sublist"
begin

section \<open>Entity model\<close>

text \<open>
  The planner keeps its data in \<^verbatim>\<open>window.tasks\<close>, \<^verbatim>\<open>window.goals\<close> and
  \<^verbatim>\<open>window.settings\<close> and mirrors them into \<^verbatim>\<open>localStorage\<close>.  Instants are
  milliseconds since the epoch (what \<^verbatim>\<open>new Date(iso).getTime()\<close> yields for the ISO
  strings the script stores); \<^verbatim>\<open>null\<close> is \<open>None\<close>.  A due date is the day number
  (days since 1970-01-01) denoted by its \<^verbatim>\<open>YYYY-MM-DD\<close> string; \<open>None\<close> is the empty
  string of \<^verbatim>\<open>TASK_TEMPLATE\<close>, for which \<^verbatim>\<open>new Date('')\<close> is an invalid date.
\<close>

datatype priority = High | Medium | Low

record task =
  task_id :: "string option"
  title :: string
  subject :: string
  description :: string
  dueDate :: "int option"
  dueTime :: string
  priority :: priority
  completed :: bool
  createdAt :: "int option"
  completedAt :: "int option"

record goal =
  goal_id :: "string option"
  goal_title :: string
  category :: string
  goal_description :: string
  targetDate :: "int option"
  targetValue :: int
  currentValue :: int
  goal_unit :: string
  goal_createdAt :: "int option"
  goal_completed :: bool

record settings =
  theme :: string
  notifications :: bool
  weekStartsOn :: int

text \<open>
  The argument objects \<^verbatim>\<open>taskData\<close> and \<^verbatim>\<open>goalData\<close>: every property may be present
  or not, since the script spreads whatever object it is handed.
\<close>

record taskData =
  td_id :: "string option option"
  td_title :: "string option"
  td_subject :: "string option"
  td_description :: "string option"
  td_dueDate :: "int option option"
  td_dueTime :: "string option"
  td_priority :: "priority option"
  td_completed :: "bool option"
  td_createdAt :: "int option option"
  td_completedAt :: "int option option"

record goalData =
  gd_id :: "string option option"
  gd_title :: "string option"
  gd_category :: "string option"
  gd_description :: "string option"
  gd_targetDate :: "int option option"
  gd_targetValue :: "int option"
  gd_currentValue :: "int option"
  gd_unit :: "string option"
  gd_createdAt :: "int option option"
  gd_completed :: "bool option"

definition TASK_TEMPLATE :: task where
  "TASK_TEMPLATE = \<lparr> task_id = None, title = '''', subject = '''', description = '''',
     dueDate = None, dueTime = '''', priority = Medium, completed = False,
     createdAt = None, completedAt = None \<rparr>"

definition GOAL_TEMPLATE :: goal where
  "GOAL_TEMPLATE = \<lparr> goal_id = None, goal_title = '''', category = '''',
     goal_description = '''', targetDate = None, targetValue = 0, currentValue = 0,
     goal_unit = ''hours'', goal_createdAt = None, goal_completed = False \<rparr>"

text \<open>The form's objects: \<^verbatim>\<open>handleTaskSubmit\<close> and \<^verbatim>\<open>handleGoalSubmit\<close> set exactly
  these six properties.\<close>

definition noTaskData :: taskData where
  "noTaskData = \<lparr> td_id = None, td_title = None, td_subject = None, td_description = None,
     td_dueDate = None, td_dueTime = None, td_priority = None, td_completed = None,
     td_createdAt = None, td_completedAt = None \<rparr>"

definition noGoalData :: goalData where
  "noGoalData = \<lparr> gd_id = None, gd_title = None, gd_category = None, gd_description = None,
     gd_targetDate = None, gd_targetValue = None, gd_currentValue = None, gd_unit = None,
     gd_createdAt = None, gd_completed = None \<rparr>"

definition taskFormData ::
  "string \<Rightarrow> string \<Rightarrow> int option \<Rightarrow> string \<Rightarrow> priority \<Rightarrow> string \<Rightarrow> taskData" where
  "taskFormData ti su dd dt pr de =
     noTaskData \<lparr> td_title := Some ti, td_subject := Some su, td_dueDate := Some dd,
       td_dueTime := Some dt, td_priority := Some pr, td_description := Some de \<rparr>"

definition goalFormData ::
  "string \<Rightarrow> string \<Rightarrow> int option \<Rightarrow> int \<Rightarrow> string \<Rightarrow> string \<Rightarrow> goalData" where
  "goalFormData ti ca td tv un de =
     noGoalData \<lparr> gd_title := Some ti, gd_category := Some ca, gd_targetDate := Some td,
       gd_targetValue := Some tv, gd_unit := Some un, gd_description := Some de \<rparr>"

text \<open>Object spread \<^verbatim>\<open>{...old, ...data}\<close>: a property of \<open>data\<close> wins where present.\<close>

definition orElse :: "'a option \<Rightarrow> 'a \<Rightarrow> 'a" where
  "orElse p old = (case p of Some v \<Rightarrow> v | None \<Rightarrow> old)"

definition mergeTask :: "task \<Rightarrow> taskData \<Rightarrow> task" where
  "mergeTask old d =
     \<lparr> task_id = orElse (td_id d) (task_id old),
       title = orElse (td_title d) (title old),
       subject = orElse (td_subject d) (subject old),
       description = orElse (td_description d) (description old),
       dueDate = orElse (td_dueDate d) (dueDate old),
       dueTime = orElse (td_dueTime d) (dueTime old),
       priority = orElse (td_priority d) (priority old),
       completed = orElse (td_completed d) (completed old),
       createdAt = orElse (td_createdAt d) (createdAt old),
       completedAt = orElse (td_completedAt d) (completedAt old) \<rparr>"

definition mergeGoal :: "goal \<Rightarrow> goalData \<Rightarrow> goal" where
  "mergeGoal old d =
     \<lparr> goal_id = orElse (gd_id d) (goal_id old),
       goal_title = orElse (gd_title d) (goal_title old),
       category = orElse (gd_category d) (category old),
       goal_description = orElse (gd_description d) (goal_description old),
       targetDate = orElse (gd_targetDate d) (targetDate old),
       targetValue = orElse (gd_targetValue d) (targetValue old),
       currentValue = orElse (gd_currentValue d) (currentValue old),
       goal_unit = orElse (gd_unit d) (goal_unit old),
       goal_createdAt = orElse (gd_createdAt d) (goal_createdAt old),
       goal_completed = orElse (gd_completed d) (goal_completed old) \<rparr>"

section \<open>Session state\<close>

text \<open>
  The in-memory collections together with what \<^verbatim>\<open>localStorage\<close> holds under
  \<^verbatim>\<open>STORAGE_KEYS.TASKS\<close> and \<^verbatim>\<open>STORAGE_KEYS.GOALS\<close> (\<open>None\<close>: never written).
  \<^verbatim>\<open>saveToStorage\<close> is taken to succeed; rendering, toasts and the console are the
  view layer and are left out.
\<close>

record app =
  tasks :: "task list"
  goals :: "goal list"
  settings :: settings
  stored_tasks :: "task list option"
  stored_goals :: "goal list option"

text \<open>How a call ends: every function of the script returns \<^verbatim>\<open>undefined\<close>, so the
  only other way out is a thrown exception.\<close>

datatype error = Error string | TypeError

datatype outcome = Returned | Thrown error

text \<open>\<^verbatim>\<open>Array.prototype.findIndex\<close>: the first index whose element satisfies the
  predicate, \<open>-1\<close> when there is none.\<close>

fun findIndex :: "('a \<Rightarrow> bool) \<Rightarrow> 'a list \<Rightarrow> int" where
  "findIndex P [] = - 1"
| "findIndex P (x # xs) =
     (if P x then 0 else (let i = findIndex P xs in if i = - 1 then - 1 else i + 1))"

text \<open>\<^verbatim>\<open>Array.prototype.find\<close> hands back the first matching element itself, so
  assigning to its properties changes that element of the array in place.\<close>

fun mutateFirst :: "('a \<Rightarrow> bool) \<Rightarrow> ('a \<Rightarrow> 'a) \<Rightarrow> 'a list \<Rightarrow> 'a list" where
  "mutateFirst P f [] = []"
| "mutateFirst P f (x # xs) = (if P x then f x # xs else x # mutateFirst P f xs)"

section \<open>Task operations\<close>

definition saveTasks :: "app \<Rightarrow> app" where
  "saveTasks s = s \<lparr> stored_tasks := Some (tasks s) \<rparr>"

definition saveGoals :: "app \<Rightarrow> app" where
  "saveGoals s = s \<lparr> stored_goals := Some (goals s) \<rparr>"

text \<open>\<open>newId\<close> is the value of \<^verbatim>\<open>generateId()\<close> and \<open>now\<close> the clock at the call.\<close>

definition createTask :: "string \<Rightarrow> int \<Rightarrow> taskData \<Rightarrow> app \<Rightarrow> app" where
  "createTask newId now d s =
     (let t = (mergeTask TASK_TEMPLATE d)
                \<lparr> task_id := Some newId, createdAt := Some now, completed := False \<rparr>
      in saveTasks (s \<lparr> tasks := tasks s @ [t] \<rparr>))"

definition updateTask :: "string \<Rightarrow> taskData \<Rightarrow> app \<Rightarrow> outcome \<times> app" where
  "updateTask taskId d s =
     (let taskIndex = findIndex (\<lambda>t. task_id t = Some taskId) (tasks s)
      in if taskIndex \<noteq> - 1
         then (Returned,
               saveTasks (s \<lparr> tasks := (tasks s)
                 [nat taskIndex := mergeTask (tasks s ! nat taskIndex) d] \<rparr>))
         else (Returned, s))"

text \<open>\<open>confirmed\<close> is the answer to the \<^verbatim>\<open>confirm\<close> dialog.\<close>

definition deleteTask :: "bool \<Rightarrow> string \<Rightarrow> app \<Rightarrow> app" where
  "deleteTask confirmed taskId s =
     (if confirmed
      then saveTasks (s \<lparr> tasks := filter (\<lambda>t. task_id t \<noteq> Some taskId) (tasks s) \<rparr>)
      else s)"

definition toggleTask :: "int \<Rightarrow> task \<Rightarrow> task" where
  "toggleTask now t =
     (let t1 = t \<lparr> completed := \<not> completed t \<rparr>
      in t1 \<lparr> completedAt := (if completed t1 then Some now else None) \<rparr>)"

definition toggleTaskCompletion :: "int \<Rightarrow> string \<Rightarrow> app \<Rightarrow> outcome \<times> app" where
  "toggleTaskCompletion now taskId s =
     (case find (\<lambda>t. task_id t = Some taskId) (tasks s) of
        Some _ \<Rightarrow>
          (Returned,
           saveTasks (s \<lparr> tasks :=
             mutateFirst (\<lambda>t. task_id t = Some taskId) (toggleTask now) (tasks s) \<rparr>))
      | None \<Rightarrow> (Returned, s))"

text \<open>The invariant of the data model: \<open>completedAt\<close> is present exactly when the task is
  completed.\<close>

definition completedAtInv :: "task \<Rightarrow> bool" where
  "completedAtInv t = ((completedAt t \<noteq> None) = completed t)"

section \<open>Goal operations\<close>

definition createGoal :: "string \<Rightarrow> int \<Rightarrow> goalData \<Rightarrow> app \<Rightarrow> app" where
  "createGoal newId now d s =
     (let g = (mergeGoal GOAL_TEMPLATE d)
                \<lparr> goal_id := Some newId, goal_createdAt := Some now,
                  currentValue := 0, goal_completed := False \<rparr>
      in saveGoals (s \<lparr> goals := goals s @ [g] \<rparr>))"

definition updateGoal :: "string \<Rightarrow> goalData \<Rightarrow> app \<Rightarrow> app" where
  "updateGoal goalId d s =
     (let goalIndex = findIndex (\<lambda>g. goal_id g = Some goalId) (goals s)
      in if goalIndex \<noteq> - 1
         then saveGoals (s \<lparr> goals := (goals s)
                [nat goalIndex := mergeGoal (goals s ! nat goalIndex) d] \<rparr>)
         else s)"

definition setProgress :: "int \<Rightarrow> goal \<Rightarrow> goal" where
  "setProgress newValue g =
     (let g1 = g \<lparr> currentValue := max 0 newValue \<rparr>
      in g1 \<lparr> goal_completed := (currentValue g1 \<ge> targetValue g1) \<rparr>)"

definition updateGoalProgress :: "string \<Rightarrow> int \<Rightarrow> app \<Rightarrow> app" where
  "updateGoalProgress goalId newValue s =
     (case find (\<lambda>g. goal_id g = Some goalId) (goals s) of
        Some _ \<Rightarrow>
          saveGoals (s \<lparr> goals :=
            mutateFirst (\<lambda>g. goal_id g = Some goalId) (setProgress newValue) (goals s) \<rparr>)
      | None \<Rightarrow> s)"

section \<open>Calendar arithmetic\<close>

text \<open>
  A \<^verbatim>\<open>Date\<close> is an instant in milliseconds.  In a zone that keeps one offset \<open>tz\<close>
  all year (local time is UTC plus \<open>tz\<close> milliseconds), \<open>localDay\<close> is the calendar
  day an instant falls on (the day \<^verbatim>\<open>toDateString\<close>, \<^verbatim>\<open>getDate\<close> and \<^verbatim>\<open>getDay\<close>
  speak about) and \<open>localMidnight\<close> the instant \<^verbatim>\<open>setHours(0, 0, 0, 0)\<close> and the
  parse of a \<^verbatim>\<open>toDateString\<close> text give; the week computation below is stated for
  such a zone.  \<open>utcMidnight\<close> is the parse of a date-only \<^verbatim>\<open>YYYY-MM-DD\<close> string,
  which ECMAScript reads as UTC.
\<close>

definition msPerDay :: int where
  "msPerDay = 1000 * 60 * 60 * 24"

definition localDay :: "int \<Rightarrow> int \<Rightarrow> int" where
  "localDay tz ts = (ts + tz) div msPerDay"

definition localMidnight :: "int \<Rightarrow> int \<Rightarrow> int" where
  "localMidnight tz d = d * msPerDay - tz"

definition utcMidnight :: "int \<Rightarrow> int" where
  "utcMidnight d = d * msPerDay"

text \<open>\<^verbatim>\<open>getDay\<close>: 0 is Sunday; day 0 (1970-01-01) was a Thursday.\<close>

definition getDay :: "int \<Rightarrow> int" where
  "getDay d = (d + 4) mod 7"

text \<open>\<^verbatim>\<open>new Date(x)\<close> for a stored instant; \<^verbatim>\<open>new Date(null)\<close> is the epoch.\<close>

definition newDate :: "int option \<Rightarrow> int" where
  "newDate x = (case x of Some ts \<Rightarrow> ts | None \<Rightarrow> 0)"

text \<open>
  The host's zone in general: a standard offset, a daylight-saving offset (not below
  the standard one) and the periods of instants, from a start up to but excluding an
  end, in which daylight saving is in force.  \<open>zoneDay\<close> and \<open>zoneMidnight\<close> are
  what \<open>localDay\<close> and \<open>localMidnight\<close> are in a zone of one offset.  For a wall-clock
  time ECMAScript takes the earliest instant that shows it, and the offset from before
  the change when the change skips it.
\<close>

record zone =
  stdOffset :: int
  dstOffset :: int
  dstPeriods :: "(int \<times> int) list"

definition offsetAt :: "zone \<Rightarrow> int \<Rightarrow> int" where
  "offsetAt z ts =
     (if list_ex (\<lambda>(a, b). a \<le> ts \<and> ts < b) (dstPeriods z) then dstOffset z else stdOffset z)"

definition zoneDay :: "zone \<Rightarrow> int \<Rightarrow> int" where
  "zoneDay z ts = (ts + offsetAt z ts) div msPerDay"

definition zoneMidnight :: "zone \<Rightarrow> int \<Rightarrow> int" where
  "zoneMidnight z d =
     (let viaDst = d * msPerDay - dstOffset z;
          viaStd = d * msPerDay - stdOffset z
      in if offsetAt z viaDst = dstOffset z then viaDst else viaStd)"

definition fixedZone :: "int \<Rightarrow> zone" where
  "fixedZone tz = \<lparr> stdOffset = tz, dstOffset = tz, dstPeriods = [] \<rparr>"

section \<open>Sorting\<close>

text \<open>
  \<^verbatim>\<open>Array.prototype.sort\<close> with a comparator is stable; for a consistent comparator
  its result is the stable insertion sort below (an element goes in front of the first
  one it does not compare greater than).  The comparator's result is a number; where
  the script's arithmetic yields \<^verbatim>\<open>NaN\<close> the sort reads it as \<open>0\<close>.
\<close>

fun insertBy :: "('a \<Rightarrow> 'a \<Rightarrow> int) \<Rightarrow> 'a \<Rightarrow> 'a list \<Rightarrow> 'a list" where
  "insertBy cmp x [] = [x]"
| "insertBy cmp x (y # ys) = (if cmp x y \<le> 0 then x # y # ys else y # insertBy cmp x ys)"

definition sortBy :: "('a \<Rightarrow> 'a \<Rightarrow> int) \<Rightarrow> 'a list \<Rightarrow> 'a list" where
  "sortBy cmp xs = foldr (insertBy cmp) xs []"

definition priorityOrder :: "priority \<Rightarrow> int" where
  "priorityOrder p = (case p of High \<Rightarrow> 3 | Medium \<Rightarrow> 2 | Low \<Rightarrow> 1)"

text \<open>The comparator of \<^verbatim>\<open>renderTasksList\<close>.  \<^verbatim>\<open>a.completed - b.completed\<close> subtracts
  the booleans as 0 and 1; the difference of two dates is in milliseconds, and
  \<^verbatim>\<open>NaN\<close> when either date is invalid.\<close>

definition taskCompare :: "task \<Rightarrow> task \<Rightarrow> int" where
  "taskCompare a b =
     (if completed a \<noteq> completed b then of_bool (completed a) - of_bool (completed b)
      else if dueDate a \<noteq> dueDate b then
        (case (dueDate a, dueDate b) of
           (Some x, Some y) \<Rightarrow> utcMidnight x - utcMidnight y
         | _ \<Rightarrow> 0)
      else priorityOrder (priority b) - priorityOrder (priority a))"

definition sortedTasks :: "task list \<Rightarrow> task list" where
  "sortedTasks ts = sortBy taskCompare ts"

text \<open>The order the specification describes, on tasks that have a due date: incomplete
  before completed, then the earlier due date, then the higher priority rank.\<close>

definition taskOrder :: "task \<Rightarrow> task \<Rightarrow> bool" where
  "taskOrder a b =
     (case (dueDate a, dueDate b) of
        (Some x, Some y) \<Rightarrow>
          (\<not> completed a \<and> completed b)
          \<or> (completed a = completed b
              \<and> (x < y \<or> (x = y \<and> priorityOrder (priority a) \<ge> priorityOrder (priority b))))
      | _ \<Rightarrow> False)"

section \<open>Study streak\<close>

text \<open>\<^verbatim>\<open>tasksByDate\<close> is an object keyed by \<^verbatim>\<open>toDateString\<close> texts; its keys are
  kept in the order they were first added, so it is an association list keyed by the
  local day the text names.\<close>

fun pushByDate :: "(int \<times> task list) list \<Rightarrow> int \<Rightarrow> task \<Rightarrow> (int \<times> task list) list" where
  "pushByDate [] d t = [(d, [t])]"
| "pushByDate ((k, ts) # rest) d t =
     (if k = d then (k, ts @ [t]) # rest else (k, ts) # pushByDate rest d t)"

definition groupByDate :: "zone \<Rightarrow> task list \<Rightarrow> (int \<times> task list) list" where
  "groupByDate z ts =
     foldl (\<lambda>m t. pushByDate m (zoneDay z (newDate (completedAt t))) t) [] ts"

fun streakLoop :: "zone \<Rightarrow> int \<Rightarrow> int list \<Rightarrow> nat \<Rightarrow> nat" where
  "streakLoop z currentDate [] streak = streak"
| "streakLoop z currentDate (d # ds) streak =
     (let taskDate = zoneMidnight z d;
          daysDiff = (currentDate - taskDate) div msPerDay
      in if daysDiff = int streak then streakLoop z currentDate ds (streak + 1)
         else if daysDiff > int streak then streak
         else streakLoop z currentDate ds streak)"

definition calculateStudyStreak :: "zone \<Rightarrow> int \<Rightarrow> task list \<Rightarrow> nat" where
  "calculateStudyStreak z now ts =
     (if ts = [] then 0
      else
        let completedTasks = filter (\<lambda>t. completed t \<and> completedAt t \<noteq> None) ts
        in if completedTasks = [] then 0
           else
             let tasksByDate = groupByDate z completedTasks;
                 completionDates =
                   sortBy (\<lambda>a b. zoneMidnight z b - zoneMidnight z a) (map fst tasksByDate);
                 currentDate = zoneMidnight z (zoneDay z now)
             in streakLoop z currentDate completionDates 0)"

text \<open>What the specification counts: a day has a completion when some task is completed
  with a \<open>completedAt\<close> falling on that day.\<close>

definition completedOn :: "zone \<Rightarrow> task list \<Rightarrow> int \<Rightarrow> bool" where
  "completedOn z ts d =
     (\<exists>t \<in> set ts. completed t \<and>
        (case completedAt t of Some c \<Rightarrow> zoneDay z c = d | None \<Rightarrow> False))"

section \<open>Weekly progress\<close>

definition getWeekStart :: "int \<Rightarrow> int \<Rightarrow> int \<Rightarrow> int" where
  "getWeekStart tz now offset =
     (let today = localDay tz now;
          dayOfWeek = getDay today;
          mondayOffset = (if dayOfWeek = 0 then - 6 else 1 - dayOfWeek)
      in localMidnight tz (today + mondayOffset + offset * 7))"

definition inWeek :: "int \<Rightarrow> int \<Rightarrow> task \<Rightarrow> bool" where
  "inWeek weekStart weekEnd t =
     (case dueDate t of
        Some d \<Rightarrow> utcMidnight d \<ge> weekStart \<and> utcMidnight d \<le> weekEnd
      | None \<Rightarrow> False)"

text \<open>The value \<^verbatim>\<open>progressPercent\<close> that \<^verbatim>\<open>updateWeeklyProgress\<close> computes and
  shows, as an exact fraction.\<close>

definition updateWeeklyProgress :: "int \<Rightarrow> int \<Rightarrow> app \<Rightarrow> rat" where
  "updateWeeklyProgress tz now s =
     (let weekStart = getWeekStart tz now 0;
          weekEnd = localMidnight tz (localDay tz weekStart + 6)
                      + (23 * 3600000 + 59 * 60000 + 59 * 1000 + 999);
          weekTasks = filter (inWeek weekStart weekEnd) (tasks s);
          completedWeekTasks = length (filter completed weekTasks);
          totalWeekTasks = length weekTasks
      in if totalWeekTasks > 0
         then (of_nat completedWeekTasks / of_nat totalWeekTasks) * 100
         else 0)"

text \<open>The week of the specification: seven days from the latest day on or before today
  whose weekday is \<open>weekStartsOn\<close>; and the share of the tasks due in a span of days
  that are completed.\<close>

definition specWeekStart :: "int \<Rightarrow> int \<Rightarrow> int" where
  "specWeekStart wso today = today - (getDay today - wso) mod 7"

definition dueWithin :: "int \<Rightarrow> int \<Rightarrow> task \<Rightarrow> bool" where
  "dueWithin first lastDay t =
     (case dueDate t of Some d \<Rightarrow> first \<le> d \<and> d \<le> lastDay | None \<Rightarrow> False)"

definition completedShare :: "int \<Rightarrow> int \<Rightarrow> task list \<Rightarrow> rat" where
  "completedShare first lastDay ts =
     (let wk = filter (dueWithin first lastDay) ts
      in if wk = [] then 0
         else of_nat (length (filter completed wk)) * 100 / of_nat (length wk))"

definition specWeeklyProgress :: "int \<Rightarrow> int \<Rightarrow> app \<Rightarrow> rat" where
  "specWeeklyProgress tz now s =
     (let first = specWeekStart (weekStartsOn (settings s)) (localDay tz now)
      in completedShare first (first + 6) (tasks s))"

section \<open>Import\<close>

text \<open>
  \<^verbatim>\<open>importData\<close> works on whatever \<^verbatim>\<open>JSON.parse\<close> returns and stores the values it
  finds without looking inside them, so here the session holds JSON values.  A property
  read yields \<open>None\<close> for \<^verbatim>\<open>undefined\<close>.
\<close>

datatype json =
  JNull | JBool bool | JNum int | JStr string | JArr "json list" | JObj "(string \<times> json) list"

record window =
  w_tasks :: json
  w_goals :: json
  w_settings :: json
  ls_tasks :: "json option"
  ls_goals :: "json option"
  ls_settings :: "json option"

fun truthy :: "json \<Rightarrow> bool" where
  "truthy JNull = False"
| "truthy (JBool b) = b"
| "truthy (JNum n) = (n \<noteq> 0)"
| "truthy (JStr s) = (s \<noteq> [])"
| "truthy (JArr xs) = True"
| "truthy (JObj kvs) = True"

fun getProp :: "json \<Rightarrow> string \<Rightarrow> json option" where
  "getProp (JObj kvs) k = map_of kvs k"
| "getProp v k = None"

fun isArray :: "json \<Rightarrow> bool" where
  "isArray (JArr xs) = True"
| "isArray v = False"

text \<open>The first step of the refresh, \<^verbatim>\<open>updateDashboardStats\<close>, calls
  \<^verbatim>\<open>window.tasks.filter\<close>, which is a \<^verbatim>\<open>TypeError\<close> unless \<^verbatim>\<open>window.tasks\<close> is an
  array.  What follows (the callbacks on the elements and the rendering, which can
  throw as well, for instance on a \<^verbatim>\<open>null\<close> element or on goals that cannot be
  iterated) belongs to the view layer and is not modelled: the outcome given for an
  array stands for that part and nothing below is concluded from it.\<close>

definition refreshViews :: "window \<Rightarrow> outcome" where
  "refreshViews w = (if isArray (w_tasks w) then Returned else Thrown TypeError)"

text \<open>The body of the \<^verbatim>\<open>try\<close> block in \<^verbatim>\<open>reader.onload\<close>, on the parsed document:
  the outcome is what reaches the \<^verbatim>\<open>catch\<close> handler, which only logs and notifies.
  Reading a property of \<^verbatim>\<open>null\<close> is a \<^verbatim>\<open>TypeError\<close>.\<close>

definition importData :: "bool \<Rightarrow> json \<Rightarrow> window \<Rightarrow> outcome \<times> window" where
  "importData confirmed data w =
     (if data = JNull then (Thrown TypeError, w)
      else
        case (getProp data ''tasks'', getProp data ''goals'') of
          (Some t, Some g) \<Rightarrow>
            if \<not> truthy t \<or> \<not> truthy g
            then (Thrown (Error ''Invalid backup file format''), w)
            else if \<not> confirmed then (Returned, w)
            else
              let st = (case getProp data ''settings'' of
                          Some v \<Rightarrow> if truthy v then v else JObj []
                        | None \<Rightarrow> JObj []);
                  w' = w \<lparr> w_tasks := t, w_goals := g, w_settings := st,
                           ls_tasks := Some t, ls_goals := Some g, ls_settings := Some st \<rparr>
              in (refreshViews w', w')
        | _ \<Rightarrow> (Thrown (Error ''Invalid backup file format''), w))"

section \<open>Sample data\<close>

text \<open>
  Concrete sessions on which the operations are run below.  \<open>defaultSettings\<close> are the
  settings \<^verbatim>\<open>loadDataFromStorage\<close> starts from; day 19884 is Monday 2024-06-10.
\<close>

definition defaultSettings :: settings where
  "defaultSettings = \<lparr> theme = ''light'', notifications = True, weekStartsOn = 1 \<rparr>"

definition emptyApp :: app where
  "emptyApp = \<lparr> tasks = [], goals = [], settings = defaultSettings,
     stored_tasks = None, stored_goals = None \<rparr>"

definition sampleTask :: "string \<Rightarrow> int \<Rightarrow> priority \<Rightarrow> task" where
  "sampleTask i d p = TASK_TEMPLATE \<lparr> task_id := Some i, title := ''Read Ch.3'',
     subject := ''Biology'', dueDate := Some d, priority := p, createdAt := Some 0 \<rparr>"

definition doneAt :: "int \<Rightarrow> task \<Rightarrow> task" where
  "doneAt c t = t \<lparr> completed := True, completedAt := Some c \<rparr>"

definition sampleGoal :: "string \<Rightarrow> int \<Rightarrow> int \<Rightarrow> goal" where
  "sampleGoal i target cur = GOAL_TEMPLATE \<lparr> goal_id := Some i, goal_title := ''Revise'',
     category := ''Exam'', targetDate := Some 19884, targetValue := target,
     currentValue := cur, goal_createdAt := Some 0 \<rparr>"

definition withTasks :: "task list \<Rightarrow> app" where
  "withTasks ts = emptyApp \<lparr> tasks := ts, stored_tasks := Some ts \<rparr>"

definition withGoals :: "goal list \<Rightarrow> app" where
  "withGoals gs = emptyApp \<lparr> goals := gs, stored_goals := Some gs \<rparr>"

text \<open>Three tasks, two of them with the same id.\<close>

definition abaTasks :: app where
  "abaTasks = withTasks [sampleTask ''a'' 19884 High, sampleTask ''b'' 19885 Low,
     sampleTask ''a'' 19886 Medium]"

definition twoGoals :: app where
  "twoGoals = withGoals [sampleGoal ''g1'' 10 5, sampleGoal ''g2'' 4 0]"

definition halfwayGoal :: app where
  "halfwayGoal = withGoals [sampleGoal ''g1'' 10 5]"

definition oneTask :: app where
  "oneTask = withTasks [sampleTask ''t1'' 19884 High]"

definition oneDoneTask :: app where
  "oneDoneTask = withTasks [doneAt 100 (sampleTask ''t1'' 19884 High)]"

text \<open>What the task form submits when a task is edited.\<close>

definition formEdit :: taskData where
  "formEdit = taskFormData ''Read Ch.4'' ''Biology'' (Some 19885) ''09:30'' Low ''''"

text \<open>A session with one task, and a backup file whose \<open>tasks\<close> is the number 5.\<close>

definition usedWindow :: window where
  "usedWindow = \<lparr> w_tasks = JArr [JObj [(''id'', JStr ''t1''), (''title'', JStr ''Read Ch.3'')]],
     w_goals = JArr [], w_settings = JObj [(''theme'', JStr ''light'')],
     ls_tasks = Some (JArr [JObj [(''id'', JStr ''t1''), (''title'', JStr ''Read Ch.3'')]]),
     ls_goals = Some (JArr []), ls_settings = None \<rparr>"

definition badBackup :: json where
  "badBackup = JObj [(''tasks'', JNum 5), (''goals'', JArr [])]"

definition mixedTasks :: "task list" where
  "mixedTasks = [sampleTask ''m'' 19884 Medium, doneAt 100 (sampleTask ''d'' 19880 High),
     sampleTask ''l'' 19883 Low, sampleTask ''h'' 19884 High]"

text \<open>A session whose week is set to start on Sunday, holding one completed task due
  Sunday 2024-06-09 (day 19883); the clock below is Wednesday 2024-06-12, 10:00 UTC.\<close>

definition sundayApp :: app where
  "sundayApp = (withTasks [doneAt 1717927200000 (sampleTask ''s'' 19883 High)])
     \<lparr> settings := defaultSettings \<lparr> weekStartsOn := 0 \<rparr> \<rparr>"

definition wednesdayMorning :: int where
  "wednesdayMorning = 19886 * msPerDay + 36000000"

text \<open>Tasks due on the Sunday before, on the Monday (completed), Friday and Sunday of the
  week of 2024-06-10, and on the Monday after.\<close>

definition weekApp :: app where
  "weekApp = withTasks [doneAt 1717927200000 (sampleTask ''s'' 19883 High),
     doneAt 1718013600000 (sampleTask ''a'' 19884 High), sampleTask ''b'' 19890 Low,
     sampleTask ''c'' 19888 Medium, sampleTask ''n'' 19891 Low]"

text \<open>
  New York in 2024: five hours behind UTC, four while daylight saving is in force, from
  Sunday 2024-03-10 07:00 UTC to Sunday 2024-11-03 06:00 UTC.  Days 19791, 19792 and
  19793 are Saturday 2024-03-09, Sunday 03-10 and Monday 03-11; the clock is Monday
  10:00 local time.  \<open>threeDayRun\<close> has completions on the Saturday (15:00), the Sunday
  (15:00) and the Monday (09:00) and none before; \<open>gapOnSunday\<close> has the Saturday's
  and the Monday's only.
\<close>

definition newYork :: zone where
  "newYork = \<lparr> stdOffset = - 18000000, dstOffset = - 14400000,
     dstPeriods = [(19792 * msPerDay + 25200000, 20030 * msPerDay + 21600000)] \<rparr>"

definition mondayInMarch :: int where
  "mondayInMarch = 19793 * msPerDay + 50400000"

definition threeDayRun :: "task list" where
  "threeDayRun = [doneAt (19791 * msPerDay + 72000000) (sampleTask ''a'' 19791 High),
     doneAt (19792 * msPerDay + 68400000) (sampleTask ''b'' 19792 Low),
     sampleTask ''c'' 19793 Medium,
     doneAt (19793 * msPerDay + 46800000) (sampleTask ''d'' 19793 Low)]"

definition gapOnSunday :: "task list" where
  "gapOnSunday = [doneAt (19791 * msPerDay + 72000000) (sampleTask ''a'' 19791 High),
     doneAt (19793 * msPerDay + 46800000) (sampleTask ''d'' 19793 Low)]"

section \<open>Deleting a task\<close>

lemma deleteTask_tasks:
  "tasks (deleteTask True taskId s) = filter (\<lambda>t. task_id t \<noteq> Some taskId) (tasks s)"
  by (simp add: deleteTask_def saveTasks_def)

lemma count_list_filter_keep:
  "P t \<Longrightarrow> count_list (filter P xs) t = count_list xs t"
  by (induction xs) auto

text \<open>
  Claim C10. Once the user has confirmed, \<open>deleteTask\<close> removes exactly the tasks whose
  id is the given one: what is left is a subsequence of the old collection (the order
  of the survivors is kept), none of it carries the id, and every task with another id
  is still there, unchanged and as often as before.  The new collection is what is
  persisted.  When the user declines, nothing changes.
\<close>

theorem deleteTask_removes_exactly:
  "subseq (tasks (deleteTask True taskId s)) (tasks s)
   \<and> (\<forall>t \<in> set (tasks (deleteTask True taskId s)). task_id t \<noteq> Some taskId)
   \<and> (\<forall>t. task_id t \<noteq> Some taskId \<longrightarrow>
         count_list (tasks (deleteTask True taskId s)) t = count_list (tasks s) t)
   \<and> stored_tasks (deleteTask True taskId s) = Some (tasks (deleteTask True taskId s))
   \<and> deleteTask False taskId s = s"
  unfolding deleteTask_tasks
  by (auto simp: count_list_filter_keep deleteTask_def saveTasks_def)

theorem deleteTask_removes_exactly_witness:
  "tasks (deleteTask True ''a'' abaTasks) = [sampleTask ''b'' 19885 Low]
   \<and> count_list (tasks (deleteTask True ''a'' abaTasks)) (sampleTask ''b'' 19885 Low) = 1
   \<and> subseq (tasks (deleteTask True ''a'' abaTasks)) (tasks abaTasks)"
  using deleteTask_removes_exactly [of "''a''" abaTasks]
  by (simp add: abaTasks_def withTasks_def emptyApp_def sampleTask_def TASK_TEMPLATE_def
      deleteTask_def saveTasks_def)

section \<open>Updating the element that \<open>find\<close> returns\<close>

lemma find_mutateFirst:
  "(\<And>x. P x \<Longrightarrow> P (f x)) \<Longrightarrow> find P (mutateFirst P f xs) = map_option f (find P xs)"
  by (induction xs) auto

lemma filter_mutateFirst:
  "(\<And>x. P x \<Longrightarrow> P (f x)) \<Longrightarrow>
     filter (\<lambda>x. \<not> P x) (mutateFirst P f xs) = filter (\<lambda>x. \<not> P x) xs"
  by (induction xs) auto

lemma length_mutateFirst: "length (mutateFirst P f xs) = length xs"
  by (induction xs) auto

lemma mutateFirst_twice:
  "(\<And>x. P x \<Longrightarrow> P (f x)) \<Longrightarrow>
     mutateFirst P g (mutateFirst P f xs) = mutateFirst P (\<lambda>x. g (f x)) xs"
  by (induction xs) auto

section \<open>Goal progress\<close>

lemma goal_id_setProgress: "goal_id (setProgress v g) = goal_id g"
  by (simp add: setProgress_def Let_def)

lemma setProgress_fields:
  "setProgress v g = g \<lparr> currentValue := max 0 v, goal_completed := (max 0 v \<ge> targetValue g) \<rparr>"
  by (simp add: setProgress_def Let_def)

text \<open>
  Claim C9. When a goal carries the id, \<open>updateGoalProgress\<close> changes the goal that
  \<open>find\<close> reaches, the first one with that id: for every integer \<open>v\<close>, negative ones
  included, its \<open>currentValue\<close> becomes \<open>max 0 v\<close> and its \<open>completed\<close> becomes
  \<open>currentValue \<ge> targetValue\<close>; nothing else of it changes, the goals with other
  ids stay as they are, and the collection is persisted.
\<close>

theorem updateGoalProgress_clamps:
  assumes "find (\<lambda>g. goal_id g = Some goalId) (goals s) = Some g"
  shows "find (\<lambda>g. goal_id g = Some goalId) (goals (updateGoalProgress goalId v s))
           = Some (g \<lparr> currentValue := max 0 v, goal_completed := (max 0 v \<ge> targetValue g) \<rparr>)
         \<and> length (goals (updateGoalProgress goalId v s)) = length (goals s)
         \<and> filter (\<lambda>g. goal_id g \<noteq> Some goalId) (goals (updateGoalProgress goalId v s))
             = filter (\<lambda>g. goal_id g \<noteq> Some goalId) (goals s)
         \<and> stored_goals (updateGoalProgress goalId v s)
             = Some (goals (updateGoalProgress goalId v s))"
proof -
  let ?P = "\<lambda>g. goal_id g = Some goalId"
  have gs: "goals (updateGoalProgress goalId v s) = mutateFirst ?P (setProgress v) (goals s)"
    using assms by (simp add: updateGoalProgress_def saveGoals_def)
  have st: "stored_goals (updateGoalProgress goalId v s)
              = Some (mutateFirst ?P (setProgress v) (goals s))"
    using assms by (simp add: updateGoalProgress_def saveGoals_def)
  have keep: "\<And>x. ?P x \<Longrightarrow> ?P (setProgress v x)"
    by (simp add: goal_id_setProgress)
  have "find ?P (mutateFirst ?P (setProgress v) (goals s)) = Some (setProgress v g)"
    using find_mutateFirst [of ?P "setProgress v" "goals s"] keep assms by simp
  moreover have "filter (\<lambda>g. \<not> ?P g) (mutateFirst ?P (setProgress v) (goals s))
                   = filter (\<lambda>g. \<not> ?P g) (goals s)"
    using filter_mutateFirst [of ?P "setProgress v" "goals s"] keep by simp
  ultimately show ?thesis
    by (simp add: gs st length_mutateFirst setProgress_fields)
qed

theorem updateGoalProgress_clamps_witness:
  "find (\<lambda>g. goal_id g = Some ''g1'') (goals (updateGoalProgress ''g1'' (- 7) twoGoals))
     = Some ((sampleGoal ''g1'' 10 5) \<lparr> currentValue := 0, goal_completed := False \<rparr>)
   \<and> find (\<lambda>g. goal_id g = Some ''g2'') (goals (updateGoalProgress ''g2'' 9 twoGoals))
     = Some ((sampleGoal ''g2'' 4 0) \<lparr> currentValue := 9, goal_completed := True \<rparr>)"
proof -
  have h1: "find (\<lambda>g. goal_id g = Some ''g1'') (goals twoGoals) = Some (sampleGoal ''g1'' 10 5)"
    by (simp add: twoGoals_def withGoals_def emptyApp_def sampleGoal_def GOAL_TEMPLATE_def)
  have h2: "find (\<lambda>g. goal_id g = Some ''g2'') (goals twoGoals) = Some (sampleGoal ''g2'' 4 0)"
    by (simp add: twoGoals_def withGoals_def emptyApp_def sampleGoal_def GOAL_TEMPLATE_def)
  show ?thesis
    using updateGoalProgress_clamps [OF h1, of "- 7"] updateGoalProgress_clamps [OF h2, of 9]
    by (simp add: sampleGoal_def GOAL_TEMPLATE_def)
qed

section \<open>Editing a goal\<close>

text \<open>
  Claim C2. The goal \<open>g1\<close> has target 10, progress 5 and is not completed.  Saving the
  goal form with the target lowered to 3 goes through \<open>updateGoal\<close>, which merges the
  form's properties and recomputes nothing: the goal is left with progress 5, target 3
  and \<open>completed = False\<close>, although \<open>currentValue \<ge> targetValue\<close>.
\<close>

theorem updateGoal_leaves_completed_stale:
  "goals (updateGoal ''g1''
            (goalFormData ''Revise'' ''Exam'' (Some 19884) 3 ''hours'' '''') halfwayGoal)
     = [(sampleGoal ''g1'' 3 5) \<lparr> goal_completed := False \<rparr>]
   \<and> goals halfwayGoal = [(sampleGoal ''g1'' 10 5) \<lparr> goal_completed := False \<rparr>]"
  by (simp add: halfwayGoal_def withGoals_def emptyApp_def sampleGoal_def GOAL_TEMPLATE_def
      updateGoal_def saveGoals_def mergeGoal_def goalFormData_def noGoalData_def orElse_def)

section \<open>The \<open>completedAt\<close> invariant\<close>

text \<open>
  Counterexample to claim C5 as stated. The only task is incomplete with no
  \<open>completedAt\<close>; \<open>updateTask\<close> with an object that carries \<open>completed: true\<close> and
  nothing else spreads it over the task, which is then completed without a
  \<open>completedAt\<close>.
\<close>

theorem updateTask_can_break_completedAt:
  "completedAtInv (tasks oneTask ! 0)
   \<and> completed (tasks (snd (updateTask ''t1'' (noTaskData \<lparr> td_completed := Some True \<rparr>) oneTask)) ! 0)
   \<and> completedAt (tasks (snd (updateTask ''t1'' (noTaskData \<lparr> td_completed := Some True \<rparr>) oneTask)) ! 0) = None"
  by (simp add: oneTask_def withTasks_def emptyApp_def sampleTask_def TASK_TEMPLATE_def
      updateTask_def saveTasks_def mergeTask_def noTaskData_def orElse_def completedAtInv_def)

lemma findIndex_range: "findIndex P xs = - 1 \<or> (0 \<le> findIndex P xs \<and> findIndex P xs < int (length xs))"
  by (induction xs) (auto simp: Let_def)

lemma findIndex_absent: "(findIndex P xs = - 1) = (\<forall>x \<in> set xs. \<not> P x)"
proof (induction xs)
  case Nil
  then show ?case by simp
next
  case (Cons x xs)
  then show ?case
    using findIndex_range [of P xs] by (auto simp: Let_def)
qed

lemma findIndex_first:
  "i < length xs \<Longrightarrow> P (xs ! i) \<Longrightarrow> (\<forall>j < i. \<not> P (xs ! j)) \<Longrightarrow> findIndex P xs = int i"
proof (induction xs arbitrary: i)
  case Nil
  then show ?case by simp
next
  case (Cons x xs)
  show ?case
  proof (cases i)
    case 0
    with Cons.prems show ?thesis by simp
  next
    case (Suc k)
    with Cons.prems have nx: "\<not> P x" by auto
    have "findIndex P xs = int k"
    proof (rule Cons.IH)
      show "k < length xs" using Cons.prems Suc by simp
      show "P (xs ! k)" using Cons.prems Suc by simp
      show "\<forall>j<k. \<not> P (xs ! j)"
      proof (intro allI impI)
        fix j assume "j < k"
        then have "Suc j < i" using Suc by simp
        with Cons.prems have "\<not> P ((x # xs) ! Suc j)" by blast
        then show "\<not> P (xs ! j)" by simp
      qed
    qed
    with nx Suc show ?thesis by (simp add: Let_def)
  qed
qed

lemma set_mutateFirst: "set (mutateFirst P f xs) \<subseteq> set xs \<union> f ` {x \<in> set xs. P x}"
  by (induction xs) auto

lemma completedAtInv_toggleTask: "completedAtInv (toggleTask now t)"
  by (simp add: toggleTask_def completedAtInv_def Let_def)

lemma completedAtInv_mergeTask:
  "td_completed d = None \<Longrightarrow> td_completedAt d = None \<Longrightarrow> completedAtInv t \<Longrightarrow>
     completedAtInv (mergeTask t d)"
  by (simp add: mergeTask_def completedAtInv_def orElse_def)

lemma tasks_createTask:
  "tasks (createTask newId now d s)
     = tasks s @ [(mergeTask TASK_TEMPLATE d)
                    \<lparr> task_id := Some newId, createdAt := Some now, completed := False \<rparr>]"
  by (simp add: createTask_def saveTasks_def Let_def)

lemma tasks_toggle_subset:
  "set (tasks (snd (toggleTaskCompletion now taskId s)))
     \<subseteq> set (tasks s) \<union> toggleTask now ` set (tasks s)"
  using set_mutateFirst [of "\<lambda>t. task_id t = Some taskId" "toggleTask now" "tasks s"]
  by (auto simp: toggleTaskCompletion_def saveTasks_def split: option.splits)

lemma tasks_updateTask_subset:
  "set (tasks (snd (updateTask taskId d s)))
     \<subseteq> set (tasks s) \<union> (\<lambda>t. mergeTask t d) ` set (tasks s)"
proof (cases "findIndex (\<lambda>t. task_id t = Some taskId) (tasks s) = - 1")
  case True
  then show ?thesis by (simp add: updateTask_def Let_def)
next
  case False
  let ?i = "nat (findIndex (\<lambda>t. task_id t = Some taskId) (tasks s))"
  have lt: "?i < length (tasks s)"
    using findIndex_range [of "\<lambda>t. task_id t = Some taskId" "tasks s"] False by auto
  have "set ((tasks s)[?i := mergeTask (tasks s ! ?i) d])
          \<subseteq> insert (mergeTask (tasks s ! ?i) d) (set (tasks s))"
    by (rule set_update_subset_insert)
  moreover have "tasks s ! ?i \<in> set (tasks s)" using lt by simp
  ultimately show ?thesis
    using False by (auto simp: updateTask_def Let_def saveTasks_def)
qed

text \<open>
  Claim C5, amended. If \<open>completedAt\<close> is present exactly on the completed tasks of the
  collection, the same holds of every task after \<open>createTask\<close> and after \<open>updateTask\<close>
  with an argument object that carries neither \<open>completed\<close> nor \<open>completedAt\<close> (such
  as the task form's), and after any \<open>toggleTaskCompletion\<close>.
\<close>

theorem completedAt_invariant_kept:
  assumes inv: "\<forall>t \<in> set (tasks s). completedAtInv t"
    and nc: "td_completed d = None" and nca: "td_completedAt d = None"
  shows "(\<forall>t \<in> set (tasks (createTask newId now d s)). completedAtInv t)
       \<and> (\<forall>t \<in> set (tasks (snd (updateTask taskId d s))). completedAtInv t)
       \<and> (\<forall>t \<in> set (tasks (snd (toggleTaskCompletion now taskId s))). completedAtInv t)"
proof (intro conjI)
  show "\<forall>t \<in> set (tasks (createTask newId now d s)). completedAtInv t"
    using inv nca
    by (auto simp: tasks_createTask completedAtInv_def mergeTask_def orElse_def TASK_TEMPLATE_def)
  show "\<forall>t \<in> set (tasks (snd (updateTask taskId d s))). completedAtInv t"
    using tasks_updateTask_subset [of taskId d s] inv completedAtInv_mergeTask [OF nc nca]
    by auto
  show "\<forall>t \<in> set (tasks (snd (toggleTaskCompletion now taskId s))). completedAtInv t"
    using tasks_toggle_subset [of now taskId s] inv completedAtInv_toggleTask
    by auto
qed

theorem completedAt_invariant_kept_witness:
  "completedAtInv (tasks (createTask ''t2'' 7 formEdit oneTask) ! 1)
   \<and> completedAtInv (tasks (snd (updateTask ''t1'' formEdit oneTask)) ! 0)
   \<and> completedAtInv (tasks (snd (toggleTaskCompletion 7 ''t1'' oneTask)) ! 0)
   \<and> completed (tasks (snd (toggleTaskCompletion 7 ''t1'' oneTask)) ! 0)"
proof -
  have inv: "\<forall>t \<in> set (tasks oneTask). completedAtInv t"
    by (simp add: oneTask_def withTasks_def emptyApp_def sampleTask_def TASK_TEMPLATE_def
        completedAtInv_def)
  have nc: "td_completed formEdit = None" and nca: "td_completedAt formEdit = None"
    by (simp_all add: formEdit_def taskFormData_def noTaskData_def)
  have l1: "length (tasks (createTask ''t2'' 7 formEdit oneTask)) = 2"
    by (simp add: tasks_createTask oneTask_def withTasks_def emptyApp_def)
  have l2: "length (tasks (snd (updateTask ''t1'' formEdit oneTask))) = 1"
    by (simp add: updateTask_def saveTasks_def oneTask_def withTasks_def emptyApp_def
        sampleTask_def TASK_TEMPLATE_def)
  have l3: "tasks (snd (toggleTaskCompletion 7 ''t1'' oneTask))
              = [toggleTask 7 (sampleTask ''t1'' 19884 High)]"
    by (simp add: toggleTaskCompletion_def saveTasks_def oneTask_def withTasks_def emptyApp_def
        sampleTask_def TASK_TEMPLATE_def)
  show ?thesis
    using completedAt_invariant_kept [OF inv nc nca, of "''t2''" 7 "''t1''"] l1 l2
    by (simp add: l3 toggleTask_def sampleTask_def TASK_TEMPLATE_def)
qed

section \<open>Ids that are not in the collection\<close>

text \<open>
  Counterexample to claim C6 as stated. No task has the id \<open>ghost\<close>; both calls return
  normally, nothing is thrown, and the session is exactly what it was.
\<close>

theorem absent_id_is_silent_noop:
  "updateTask ''ghost'' formEdit oneTask = (Returned, oneTask)
   \<and> toggleTaskCompletion 7 ''ghost'' oneTask = (Returned, oneTask)"
  by (simp add: updateTask_def toggleTaskCompletion_def oneTask_def withTasks_def emptyApp_def
      sampleTask_def TASK_TEMPLATE_def)

lemma find_absent: "(find P xs = None) = (\<forall>x \<in> set xs. \<not> P x)"
  by (induction xs) auto

text \<open>
  Claim C6, amended. For an id that no task carries, \<open>updateTask\<close> and
  \<open>toggleTaskCompletion\<close> return normally and leave the session as it is, storage
  included: a no-op without any failure.  For an id that is present, \<open>updateTask\<close>
  replaces the first task with that id by the spread of the argument object over it
  and persists the collection.
\<close>

theorem updateTask_absent_noop_present_merge:
  "((\<forall>t \<in> set (tasks s). task_id t \<noteq> Some taskId) \<longrightarrow>
       updateTask taskId d s = (Returned, s)
       \<and> toggleTaskCompletion now taskId s = (Returned, s))
   \<and> (\<forall>i < length (tasks s).
         task_id (tasks s ! i) = Some taskId
         \<and> (\<forall>j < i. task_id (tasks s ! j) \<noteq> Some taskId) \<longrightarrow>
         updateTask taskId d s =
           (Returned,
            s \<lparr> tasks := (tasks s)[i := mergeTask (tasks s ! i) d],
                stored_tasks := Some ((tasks s)[i := mergeTask (tasks s ! i) d]) \<rparr>))"
proof (intro conjI impI allI)
  assume a: "\<forall>t \<in> set (tasks s). task_id t \<noteq> Some taskId"
  then have "findIndex (\<lambda>t. task_id t = Some taskId) (tasks s) = - 1"
    by (simp add: findIndex_absent)
  then show "updateTask taskId d s = (Returned, s)"
    by (simp add: updateTask_def)
  from a have "find (\<lambda>t. task_id t = Some taskId) (tasks s) = None"
    by (simp add: find_absent)
  then show "toggleTaskCompletion now taskId s = (Returned, s)"
    by (simp add: toggleTaskCompletion_def)
next
  fix i
  assume lt: "i < length (tasks s)"
    and h: "task_id (tasks s ! i) = Some taskId
            \<and> (\<forall>j < i. task_id (tasks s ! j) \<noteq> Some taskId)"
  have "findIndex (\<lambda>t. task_id t = Some taskId) (tasks s) = int i"
    using findIndex_first [of i "tasks s" "\<lambda>t. task_id t = Some taskId"] lt h by simp
  then show "updateTask taskId d s =
           (Returned,
            s \<lparr> tasks := (tasks s)[i := mergeTask (tasks s ! i) d],
                stored_tasks := Some ((tasks s)[i := mergeTask (tasks s ! i) d]) \<rparr>)"
    by (simp add: updateTask_def saveTasks_def)
qed

theorem updateTask_absent_noop_present_merge_witness:
  "updateTask ''b'' formEdit oneTask = (Returned, oneTask)
   \<and> toggleTaskCompletion 7 ''b'' oneTask = (Returned, oneTask)
   \<and> updateTask ''b'' formEdit abaTasks =
       (Returned,
        abaTasks \<lparr> tasks := (tasks abaTasks)[1 := mergeTask (tasks abaTasks ! 1) formEdit],
          stored_tasks := Some ((tasks abaTasks)[1 := mergeTask (tasks abaTasks ! 1) formEdit]) \<rparr>)
   \<and> title (mergeTask (tasks abaTasks ! 1) formEdit) = ''Read Ch.4''
   \<and> task_id (mergeTask (tasks abaTasks ! 1) formEdit) = Some ''b''"
proof -
  have absent: "\<forall>t \<in> set (tasks oneTask). task_id t \<noteq> Some ''b''"
    by (simp add: oneTask_def withTasks_def emptyApp_def sampleTask_def TASK_TEMPLATE_def)
  have len: "(1::nat) < length (tasks abaTasks)"
    by (simp add: abaTasks_def withTasks_def emptyApp_def)
  have first: "task_id (tasks abaTasks ! 1) = Some ''b''
               \<and> (\<forall>j < (1::nat). task_id (tasks abaTasks ! j) \<noteq> Some ''b'')"
    by (simp add: abaTasks_def withTasks_def emptyApp_def sampleTask_def TASK_TEMPLATE_def)
  have r1: "updateTask ''b'' formEdit oneTask = (Returned, oneTask)
            \<and> toggleTaskCompletion 7 ''b'' oneTask = (Returned, oneTask)"
    using updateTask_absent_noop_present_merge [of oneTask "''b''" formEdit 7] absent
    by blast
  have r2: "updateTask ''b'' formEdit abaTasks =
       (Returned,
        abaTasks \<lparr> tasks := (tasks abaTasks)[1 := mergeTask (tasks abaTasks ! 1) formEdit],
          stored_tasks := Some ((tasks abaTasks)[1 := mergeTask (tasks abaTasks ! 1) formEdit]) \<rparr>)"
    using updateTask_absent_noop_present_merge [of abaTasks "''b''" formEdit 7] len first
    by blast
  have r3: "title (mergeTask (tasks abaTasks ! 1) formEdit) = ''Read Ch.4''
            \<and> task_id (mergeTask (tasks abaTasks ! 1) formEdit) = Some ''b''"
    by (simp add: abaTasks_def withTasks_def emptyApp_def sampleTask_def TASK_TEMPLATE_def
        mergeTask_def formEdit_def taskFormData_def noTaskData_def orElse_def)
  show ?thesis
    using r1 r2 r3 by blast
qed

section \<open>Toggling twice\<close>

text \<open>
  Counterexample to claim C7 as stated. The task was completed at instant 100; it is
  toggled at 200 and again at 300.  It is completed again, but its \<open>completedAt\<close> is
  300, not the original 100.
\<close>

theorem toggle_twice_renews_completedAt:
  "completedAt (tasks oneDoneTask ! 0) = Some 100
   \<and> completedAt (tasks (snd (toggleTaskCompletion 300 ''t1''
        (snd (toggleTaskCompletion 200 ''t1'' oneDoneTask)))) ! 0) = Some 300"
  by (simp add: toggleTaskCompletion_def saveTasks_def oneDoneTask_def withTasks_def
      emptyApp_def doneAt_def sampleTask_def TASK_TEMPLATE_def toggleTask_def)

lemma task_id_toggleTask: "task_id (toggleTask now t) = task_id t"
  by (simp add: toggleTask_def Let_def)

lemma toggleTask_twice:
  "toggleTask n2 (toggleTask n1 t)
     = t \<lparr> completedAt := (if completed t then Some n2 else None) \<rparr>"
  by (cases t) (simp add: toggleTask_def Let_def)

lemma mutateFirst_fixed:
  "find P xs = Some t \<Longrightarrow> f t = t \<Longrightarrow> mutateFirst P f xs = xs"
  by (induction xs) (auto split: if_splits)

lemma tasks_toggle_present:
  "find (\<lambda>t. task_id t = Some taskId) (tasks s) = Some t \<Longrightarrow>
     tasks (snd (toggleTaskCompletion now taskId s))
       = mutateFirst (\<lambda>t. task_id t = Some taskId) (toggleTask now) (tasks s)"
  by (simp add: toggleTaskCompletion_def saveTasks_def)

text \<open>
  Claim C7, amended. For a task present in the collection, toggling its id twice (at
  instants \<open>n1\<close> and \<open>n2\<close>) returns \<open>completed\<close> to its original value and changes
  nothing but \<open>completedAt\<close>, which is absent if the task was incomplete and \<open>n2\<close> if
  it was completed.  So a task that was incomplete with no \<open>completedAt\<close> is back at
  its original values, and with it the whole collection.
\<close>

theorem toggle_twice_restores_completed:
  assumes "find (\<lambda>t. task_id t = Some taskId) (tasks s) = Some t"
  shows "find (\<lambda>t. task_id t = Some taskId)
           (tasks (snd (toggleTaskCompletion n2 taskId (snd (toggleTaskCompletion n1 taskId s)))))
         = Some (t \<lparr> completedAt := (if completed t then Some n2 else None) \<rparr>)
       \<and> (\<not> completed t \<and> completedAt t = None \<longrightarrow>
            tasks (snd (toggleTaskCompletion n2 taskId (snd (toggleTaskCompletion n1 taskId s))))
              = tasks s)"
proof -
  let ?P = "\<lambda>t. task_id t = Some taskId"
  let ?s1 = "snd (toggleTaskCompletion n1 taskId s)"
  let ?f = "\<lambda>t. t \<lparr> completedAt := (if completed t then Some n2 else None) \<rparr>"
  have keep: "\<And>n x. ?P x \<Longrightarrow> ?P (toggleTask n x)"
    by (simp add: task_id_toggleTask)
  have t1: "tasks ?s1 = mutateFirst ?P (toggleTask n1) (tasks s)"
    using assms by (rule tasks_toggle_present)
  have "find ?P (tasks ?s1) = Some (toggleTask n1 t)"
    using find_mutateFirst [of ?P "toggleTask n1" "tasks s"] keep assms by (simp add: t1)
  then have "tasks (snd (toggleTaskCompletion n2 taskId ?s1))
               = mutateFirst ?P (toggleTask n2) (tasks ?s1)"
    by (rule tasks_toggle_present)
  also have "\<dots> = mutateFirst ?P (\<lambda>x. toggleTask n2 (toggleTask n1 x)) (tasks s)"
    using mutateFirst_twice [of ?P "toggleTask n1" "toggleTask n2" "tasks s"] keep
    by (simp add: t1)
  also have "\<dots> = mutateFirst ?P ?f (tasks s)"
    by (simp add: toggleTask_twice)
  finally have t2: "tasks (snd (toggleTaskCompletion n2 taskId ?s1)) = mutateFirst ?P ?f (tasks s)" .
  have a: "find ?P (mutateFirst ?P ?f (tasks s)) = Some (?f t)"
    using find_mutateFirst [of ?P ?f "tasks s"] assms by simp
  have b: "\<not> completed t \<and> completedAt t = None \<longrightarrow> mutateFirst ?P ?f (tasks s) = tasks s"
  proof
    assume "\<not> completed t \<and> completedAt t = None"
    then have "?f t = t" by (cases t) simp
    with assms show "mutateFirst ?P ?f (tasks s) = tasks s"
      by (rule mutateFirst_fixed)
  qed
  show ?thesis
    unfolding t2 using a b by simp
qed

theorem toggle_twice_restores_completed_witness:
  "tasks (snd (toggleTaskCompletion 300 ''t1'' (snd (toggleTaskCompletion 200 ''t1'' oneTask))))
     = tasks oneTask
   \<and> find (\<lambda>t. task_id t = Some ''t1'')
        (tasks (snd (toggleTaskCompletion 300 ''t1'' (snd (toggleTaskCompletion 200 ''t1'' oneDoneTask)))))
     = Some ((doneAt 100 (sampleTask ''t1'' 19884 High)) \<lparr> completedAt := Some 300 \<rparr>)"
proof -
  have h1: "find (\<lambda>t. task_id t = Some ''t1'') (tasks oneTask) = Some (sampleTask ''t1'' 19884 High)"
    by (simp add: oneTask_def withTasks_def emptyApp_def sampleTask_def TASK_TEMPLATE_def)
  have h2: "find (\<lambda>t. task_id t = Some ''t1'') (tasks oneDoneTask)
              = Some (doneAt 100 (sampleTask ''t1'' 19884 High))"
    by (simp add: oneDoneTask_def withTasks_def emptyApp_def doneAt_def sampleTask_def
        TASK_TEMPLATE_def)
  have fresh: "\<not> completed (sampleTask ''t1'' 19884 High)
               \<and> completedAt (sampleTask ''t1'' 19884 High) = None"
    by (simp add: sampleTask_def TASK_TEMPLATE_def)
  have wasDone: "completed (doneAt 100 (sampleTask ''t1'' 19884 High))"
    by (simp add: doneAt_def)
  show ?thesis
    using toggle_twice_restores_completed [OF h1, of 300 200] fresh
      toggle_twice_restores_completed [OF h2, of 300 200] wasDone
    by simp
qed

section \<open>Importing a backup\<close>

lemma importData_missing_field:
  assumes "data \<noteq> JNull"
    and "getProp data ''tasks'' = None \<or> getProp data ''goals'' = None"
  shows "importData confirmed data w = (Thrown (Error ''Invalid backup file format''), w)"
  using assms by (auto simp: importData_def split: option.splits)

lemma importData_arrays:
  assumes "getProp data ''tasks'' = Some (JArr ts)" and "getProp data ''goals'' = Some (JArr gs)"
  shows "w_tasks (snd (importData True data w)) = JArr ts
       \<and> w_goals (snd (importData True data w)) = JArr gs
       \<and> ls_tasks (snd (importData True data w)) = Some (JArr ts)
       \<and> ls_goals (snd (importData True data w)) = Some (JArr gs)"
proof -
  have "data \<noteq> JNull" using assms by auto
  then show ?thesis
    using assms by (simp add: importData_def Let_def refreshViews_def)
qed

text \<open>
  Claim C8. The backup \<^verbatim>\<open>{"tasks": 5, "goals": []}\<close> has no sequence under \<open>tasks\<close>.
  Both values pass the check, so once the user has confirmed, the session's tasks,
  goals and settings and their stored copies are overwritten (the tasks by the number
  5); the call fails only afterwards, in the refresh, with a \<open>TypeError\<close>.
\<close>

theorem importData_overwrites_with_non_sequence:
  "importData True badBackup usedWindow =
     (Thrown TypeError,
      \<lparr> w_tasks = JNum 5, w_goals = JArr [], w_settings = JObj [],
        ls_tasks = Some (JNum 5), ls_goals = Some (JArr []), ls_settings = Some (JObj []) \<rparr>)
   \<and> w_tasks usedWindow \<noteq> JNum 5"
  by (simp add: importData_def badBackup_def usedWindow_def refreshViews_def Let_def)

theorem importData_overwrites_with_non_sequence_witness:
  "fst (importData True badBackup usedWindow) = Thrown TypeError
   \<and> w_tasks (snd (importData True badBackup usedWindow)) = JNum 5
   \<and> ls_tasks (snd (importData True badBackup usedWindow)) = Some (JNum 5)"
  using importData_overwrites_with_non_sequence by simp

section \<open>Sorting with a comparator\<close>

lemma mset_insertBy: "mset (insertBy cmp x xs) = add_mset x (mset xs)"
  by (induction xs) auto

lemma mset_sortBy: "mset (sortBy cmp xs) = mset xs"
  unfolding sortBy_def by (induction xs) (auto simp: mset_insertBy)

lemma set_insertBy: "set (insertBy cmp x xs) = insert x (set xs)"
  using mset_insertBy [of cmp x xs] by (metis set_mset_add_mset_insert set_mset_mset)

lemma set_sortBy: "set (sortBy cmp xs) = set xs"
  using mset_sortBy [of cmp xs] by (metis set_mset_mset)

lemma distinct_sortBy: "distinct (sortBy cmp xs) = distinct xs"
  using mset_sortBy [of cmp xs] by (metis distinct_count_atmost_1 set_mset_mset)

text \<open>A comparator that is total and transitive on a set \<open>A\<close> sorts the lists over \<open>A\<close>.\<close>

lemma sorted_insertBy:
  assumes trans: "\<And>a b c. a \<in> A \<Longrightarrow> b \<in> A \<Longrightarrow> c \<in> A \<Longrightarrow>
                     cmp a b \<le> 0 \<Longrightarrow> cmp b c \<le> 0 \<Longrightarrow> cmp a c \<le> 0"
    and total: "\<And>a b. a \<in> A \<Longrightarrow> b \<in> A \<Longrightarrow> cmp a b \<le> 0 \<or> cmp b a \<le> 0"
  shows "x \<in> A \<Longrightarrow> set xs \<subseteq> A \<Longrightarrow> sorted_wrt (\<lambda>a b. cmp a b \<le> 0) xs \<Longrightarrow>
           sorted_wrt (\<lambda>a b. cmp a b \<le> 0) (insertBy cmp x xs)"
proof (induction xs)
  case Nil
  then show ?case by simp
next
  case (Cons y ys)
  show ?case
  proof (cases "cmp x y \<le> 0")
    case True
    have "\<forall>z \<in> set ys. cmp x z \<le> 0"
    proof
      fix z assume z: "z \<in> set ys"
      with Cons.prems have "cmp y z \<le> 0" by simp
      moreover have "y \<in> A" "z \<in> A" using Cons.prems z by auto
      ultimately show "cmp x z \<le> 0" using trans [of x y z] True Cons.prems(1) by blast
    qed
    with True Cons.prems show ?thesis by simp
  next
    case False
    have yx: "cmp y x \<le> 0"
      using total [of x y] False Cons.prems by auto
    have "sorted_wrt (\<lambda>a b. cmp a b \<le> 0) (insertBy cmp x ys)"
      using Cons by simp
    moreover have "\<forall>z \<in> set (insertBy cmp x ys). cmp y z \<le> 0"
      using yx Cons.prems by (simp add: set_insertBy)
    ultimately show ?thesis using False by simp
  qed
qed

lemma sorted_sortBy:
  assumes trans: "\<And>a b c. a \<in> A \<Longrightarrow> b \<in> A \<Longrightarrow> c \<in> A \<Longrightarrow>
                     cmp a b \<le> 0 \<Longrightarrow> cmp b c \<le> 0 \<Longrightarrow> cmp a c \<le> 0"
    and total: "\<And>a b. a \<in> A \<Longrightarrow> b \<in> A \<Longrightarrow> cmp a b \<le> 0 \<or> cmp b a \<le> 0"
  shows "set xs \<subseteq> A \<Longrightarrow> sorted_wrt (\<lambda>a b. cmp a b \<le> 0) (sortBy cmp xs)"
proof (induction xs)
  case Nil
  then show ?case by (simp add: sortBy_def)
next
  case (Cons x xs)
  have "sorted_wrt (\<lambda>a b. cmp a b \<le> 0) (insertBy cmp x (sortBy cmp xs))"
  proof (rule sorted_insertBy [where A = A])
    show "x \<in> A" using Cons.prems by simp
    show "set (sortBy cmp xs) \<subseteq> A" using Cons.prems by (simp add: set_sortBy)
    show "sorted_wrt (\<lambda>a b. cmp a b \<le> 0) (sortBy cmp xs)" using Cons by simp
  qed (use trans total in blast)+
  then show ?case by (simp add: sortBy_def)
qed

section \<open>The task list order\<close>

lemma msPerDay_pos: "0 < msPerDay"
  by (simp add: msPerDay_def)

lemma utcMidnight_le: "(utcMidnight x \<le> utcMidnight y) = (x \<le> y)"
  using msPerDay_pos by (simp add: utcMidnight_def)

lemma utcMidnight_diff_le: "(utcMidnight x - utcMidnight y \<le> 0) = (x \<le> y)"
  by (simp add: utcMidnight_le)

lemma priorityOrder_range: "1 \<le> priorityOrder p \<and> priorityOrder p \<le> 3"
  by (cases p) (simp_all add: priorityOrder_def)

lemma taskCompare_taskOrder:
  assumes "dueDate a = Some x" and "dueDate b = Some y"
  shows "(taskCompare a b \<le> 0) = taskOrder a b"
  using assms
  by (cases "completed a"; cases "completed b")
     (auto simp: taskCompare_def taskOrder_def utcMidnight_le)

lemma taskOrder_trans: "taskOrder a b \<Longrightarrow> taskOrder b c \<Longrightarrow> taskOrder a c"
  by (auto simp: taskOrder_def split: option.splits)

lemma taskOrder_total:
  "dueDate a \<noteq> None \<Longrightarrow> dueDate b \<noteq> None \<Longrightarrow> taskOrder a b \<or> taskOrder b a"
  by (auto simp: taskOrder_def split: option.splits)

lemma sorted_sortedTasks:
  assumes "\<forall>t \<in> set ts. dueDate t \<noteq> None"
  shows "sorted_wrt taskOrder (sortedTasks ts)"
proof -
  let ?A = "{t :: task. dueDate t \<noteq> None}"
  have eq: "\<And>a b. a \<in> ?A \<Longrightarrow> b \<in> ?A \<Longrightarrow> (taskCompare a b \<le> 0) = taskOrder a b"
    using taskCompare_taskOrder by auto
  have "sorted_wrt (\<lambda>a b. taskCompare a b \<le> 0) (sortBy taskCompare ts)"
  proof (rule sorted_sortBy [where A = ?A])
    fix a b c assume "a \<in> ?A" "b \<in> ?A" "c \<in> ?A" "taskCompare a b \<le> 0" "taskCompare b c \<le> 0"
    then show "taskCompare a c \<le> 0" using eq taskOrder_trans by blast
  next
    fix a b assume "a \<in> ?A" "b \<in> ?A"
    then show "taskCompare a b \<le> 0 \<or> taskCompare b a \<le> 0"
      using eq [of a b] eq [of b a] taskOrder_total [of a b] by auto
  next
    show "set ts \<subseteq> ?A" using assms by auto
  qed
  moreover have "set (sortBy taskCompare ts) \<subseteq> ?A"
    using assms by (auto simp: set_sortBy)
  ultimately have "sorted_wrt taskOrder (sortBy taskCompare ts)"
  proof (elim sorted_wrt_mono_rel [rotated])
    fix a b
    assume "a \<in> set (sortBy taskCompare ts)" "b \<in> set (sortBy taskCompare ts)"
      and "taskCompare a b \<le> 0" and "set (sortBy taskCompare ts) \<subseteq> ?A"
    then show "taskOrder a b" using eq [of a b] by blast
  qed
  then show ?thesis by (simp add: sortedTasks_def)
qed

text \<open>
  Claim C3. On a collection whose tasks all have a due date (the data model requires
  one), \<open>sortedTasks\<close> is a rearrangement of the collection in which every task stands
  in the specified order to each task after it: incomplete before completed, then due
  date ascending, then priority descending by the rank high 3, medium 2, low 1.  In
  particular a high-priority incomplete task stands before every medium-priority
  incomplete task due the same date.
\<close>

theorem sortedTasks_ordered:
  assumes "\<forall>t \<in> set ts. dueDate t \<noteq> None"
  shows "mset (sortedTasks ts) = mset ts
       \<and> sorted_wrt taskOrder (sortedTasks ts)
       \<and> (\<forall>i j. i < length (sortedTasks ts) \<and> j < length (sortedTasks ts)
             \<and> \<not> completed (sortedTasks ts ! i) \<and> priority (sortedTasks ts ! i) = High
             \<and> \<not> completed (sortedTasks ts ! j) \<and> priority (sortedTasks ts ! j) = Medium
             \<and> dueDate (sortedTasks ts ! i) = dueDate (sortedTasks ts ! j)
             \<longrightarrow> i < j)"
proof (intro conjI allI impI)
  show "mset (sortedTasks ts) = mset ts"
    by (simp add: sortedTasks_def mset_sortBy)
  show srt: "sorted_wrt taskOrder (sortedTasks ts)"
    using assms by (rule sorted_sortedTasks)
  fix i j
  assume h: "i < length (sortedTasks ts) \<and> j < length (sortedTasks ts)
             \<and> \<not> completed (sortedTasks ts ! i) \<and> priority (sortedTasks ts ! i) = High
             \<and> \<not> completed (sortedTasks ts ! j) \<and> priority (sortedTasks ts ! j) = Medium
             \<and> dueDate (sortedTasks ts ! i) = dueDate (sortedTasks ts ! j)"
  show "i < j"
  proof (rule ccontr)
    assume "\<not> i < j"
    moreover have "i \<noteq> j" using h by auto
    ultimately have "j < i" by simp
    with srt h have "taskOrder (sortedTasks ts ! j) (sortedTasks ts ! i)"
      by (simp add: sorted_wrt_iff_nth_less)
    with h show False
      by (auto simp: taskOrder_def priorityOrder_def split: option.splits)
  qed
qed

theorem sortedTasks_ordered_witness:
  "sortedTasks mixedTasks = [sampleTask ''l'' 19883 Low, sampleTask ''h'' 19884 High,
     sampleTask ''m'' 19884 Medium, doneAt 100 (sampleTask ''d'' 19880 High)]
   \<and> mset (sortedTasks mixedTasks) = mset mixedTasks
   \<and> sorted_wrt taskOrder (sortedTasks mixedTasks)"
proof -
  have dated: "\<forall>t \<in> set mixedTasks. dueDate t \<noteq> None"
    by (simp add: mixedTasks_def sampleTask_def doneAt_def)
  have run: "sortedTasks mixedTasks = [sampleTask ''l'' 19883 Low, sampleTask ''h'' 19884 High,
     sampleTask ''m'' 19884 Medium, doneAt 100 (sampleTask ''d'' 19880 High)]"
    by (simp add: sortedTasks_def sortBy_def mixedTasks_def taskCompare_def sampleTask_def
        doneAt_def TASK_TEMPLATE_def utcMidnight_def msPerDay_def priorityOrder_def)
  show ?thesis
    using sortedTasks_ordered [OF dated] run by blast
qed

section \<open>The current week\<close>

text \<open>
  Counterexample to claim C4 as stated. The setting says the week starts on Sunday; it
  is Wednesday 2024-06-12 and the only task, completed, is due Sunday 2024-06-09.  The
  week from Sunday holds that task, so the specified progress is 100; the script,
  which never reads the setting, takes the week from Monday 2024-06-10 and reports 0.
\<close>

theorem weeklyProgress_ignores_weekStartsOn:
  "weekStartsOn (settings sundayApp) = 0
   \<and> specWeeklyProgress 0 wednesdayMorning sundayApp = 100
   \<and> updateWeeklyProgress 0 wednesdayMorning sundayApp = 0"
  by (simp add: sundayApp_def wednesdayMorning_def withTasks_def emptyApp_def defaultSettings_def
      doneAt_def sampleTask_def TASK_TEMPLATE_def specWeeklyProgress_def specWeekStart_def
      completedShare_def dueWithin_def updateWeeklyProgress_def getWeekStart_def inWeek_def
      localDay_def localMidnight_def utcMidnight_def getDay_def msPerDay_def Let_def)

lemma localDay_localMidnight: "localDay tz (localMidnight tz d) = d"
  by (simp add: localDay_def localMidnight_def msPerDay_def)

lemma getDay_range: "0 \<le> getDay d \<and> getDay d < 7"
  by (simp add: getDay_def)

lemma mondayOffset_mod:
  fixes k :: int
  assumes "0 \<le> k" and "k < 7"
  shows "(if k = 0 then - 6 else 1 - k) = - ((k - 1) mod 7)"
proof (cases "k = 0")
  case True
  then show ?thesis by simp
next
  case False
  with assms have "0 \<le> k - 1" and "k - 1 < 7" by simp_all
  then have "(k - 1) mod 7 = k - 1" by (rule mod_pos_pos_trivial)
  with False show ?thesis by simp
qed

lemma getWeekStart_monday:
  "getWeekStart tz now 0 = localMidnight tz (specWeekStart 1 (localDay tz now))"
  using mondayOffset_mod [of "getDay (localDay tz now)"] getDay_range [of "localDay tz now"]
  by (simp add: getWeekStart_def specWeekStart_def Let_def)

lemma specWeekStart_monday_eq: "specWeekStart 1 today = today - (today + 3) mod 7"
proof -
  have a: "today + 4 - 1 = today + 3" by simp
  have "(getDay today - 1) mod 7 = (today + 4 - 1) mod 7"
    unfolding getDay_def by (rule mod_diff_left_eq)
  then have "(getDay today - 1) mod 7 = (today + 3) mod 7"
    by (simp only: a)
  then show ?thesis by (simp only: specWeekStart_def)
qed

lemma specWeekStart_monday:
  "getDay (specWeekStart 1 today) = 1
   \<and> specWeekStart 1 today \<le> today \<and> today \<le> specWeekStart 1 today + 6"
proof -
  let ?r = "(today + 3) mod 7"
  let ?q = "(today + 3) div 7"
  have whole: "today + 3 - ?r = 7 * ?q"
    by (simp only: minus_mod_eq_mult_div)
  have e: "today - ?r + 4 = 7 * ?q + 1"
    using whole by linarith
  have "getDay (today - ?r) = (7 * ?q + 1) mod 7"
    by (simp only: getDay_def e)
  also have "\<dots> = 1" by simp
  finally have wd: "getDay (today - ?r) = 1" .
  have "0 \<le> ?r" and "?r < 7" by simp_all
  then show ?thesis
    using wd by (simp only: specWeekStart_monday_eq) linarith
qed

lemma inWeek_monday:
  assumes "0 \<le> tz" and "tz < msPerDay"
  shows "inWeek (localMidnight tz m)
           (localMidnight tz (m + 6) + (23 * 3600000 + 59 * 60000 + 59 * 1000 + 999)) t
         = dueWithin m (m + 6) t"
  using assms
  by (cases "dueDate t")
     (auto simp: inWeek_def dueWithin_def localMidnight_def utcMidnight_def msPerDay_def)

lemma updateWeeklyProgress_share:
  assumes "0 \<le> tz" and "tz < msPerDay"
  shows "updateWeeklyProgress tz now s
         = completedShare (specWeekStart 1 (localDay tz now))
             (specWeekStart 1 (localDay tz now) + 6) (tasks s)"
proof -
  let ?m = "specWeekStart 1 (localDay tz now)"
  have "inWeek (localMidnight tz ?m)
          (localMidnight tz (?m + 6) + (23 * 3600000 + 59 * 60000 + 59 * 1000 + 999))
        = dueWithin ?m (?m + 6)"
    using inWeek_monday [OF assms] by (intro ext) simp
  then show ?thesis
    by (simp add: updateWeeklyProgress_def getWeekStart_monday localDay_localMidnight
        completedShare_def Let_def)
qed

lemma completedShare_range: "0 \<le> completedShare a b ts \<and> completedShare a b ts \<le> 100"
proof -
  let ?wk = "filter (dueWithin a b) ts"
  have "length (filter completed ?wk) \<le> length ?wk" by (rule length_filter_le)
  then have "(of_nat (length (filter completed ?wk)) :: rat) \<le> of_nat (length ?wk)"
    by (simp only: of_nat_le_iff)
  then show ?thesis
    by (auto simp: completedShare_def Let_def divide_le_eq)
qed

text \<open>
  Claim C4, amended. In a time zone at or east of UTC (offset below one day),
  \<open>weeklyProgress\<close> is the share, between 0 and 100, of the tasks due in the seven days
  from the Monday on or before today that are completed, and 0 when that week holds no
  task.  The week always starts on Monday: the result does not depend on the settings,
  and is what the specification describes for \<open>weekStartsOn = 1\<close>.
\<close>

theorem weeklyProgress_monday_week:
  assumes "0 \<le> tz" and "tz < msPerDay"
  shows "updateWeeklyProgress tz now s
           = completedShare (specWeekStart 1 (localDay tz now))
               (specWeekStart 1 (localDay tz now) + 6) (tasks s)
       \<and> getDay (specWeekStart 1 (localDay tz now)) = 1
       \<and> specWeekStart 1 (localDay tz now) \<le> localDay tz now
       \<and> localDay tz now \<le> specWeekStart 1 (localDay tz now) + 6
       \<and> 0 \<le> updateWeeklyProgress tz now s \<and> updateWeeklyProgress tz now s \<le> 100
       \<and> (filter (dueWithin (specWeekStart 1 (localDay tz now))
                     (specWeekStart 1 (localDay tz now) + 6)) (tasks s) = []
            \<longrightarrow> updateWeeklyProgress tz now s = 0)
       \<and> updateWeeklyProgress tz now (s \<lparr> settings := st \<rparr>) = updateWeeklyProgress tz now s
       \<and> updateWeeklyProgress tz now s
           = specWeeklyProgress tz now (s \<lparr> settings := (settings s) \<lparr> weekStartsOn := 1 \<rparr> \<rparr>)"
proof -
  note share = updateWeeklyProgress_share [OF assms]
  have wd: "getDay (specWeekStart 1 (localDay tz now)) = 1
       \<and> specWeekStart 1 (localDay tz now) \<le> localDay tz now
       \<and> localDay tz now \<le> specWeekStart 1 (localDay tz now) + 6"
    by (rule specWeekStart_monday)
  have rng: "0 \<le> updateWeeklyProgress tz now s \<and> updateWeeklyProgress tz now s \<le> 100"
    unfolding share by (rule completedShare_range)
  have none: "filter (dueWithin (specWeekStart 1 (localDay tz now))
                     (specWeekStart 1 (localDay tz now) + 6)) (tasks s) = []
            \<longrightarrow> updateWeeklyProgress tz now s = 0"
    unfolding share by (simp add: completedShare_def)
  have indep: "updateWeeklyProgress tz now (s \<lparr> settings := st \<rparr>) = updateWeeklyProgress tz now s"
    by (simp add: updateWeeklyProgress_def)
  have spec: "updateWeeklyProgress tz now s
           = specWeeklyProgress tz now (s \<lparr> settings := (settings s) \<lparr> weekStartsOn := 1 \<rparr> \<rparr>)"
    unfolding share by (simp add: specWeeklyProgress_def Let_def)
  show ?thesis
    using share wd rng none indep spec by blast
qed

theorem weeklyProgress_monday_week_witness:
  "updateWeeklyProgress 19800000 wednesdayMorning weekApp = 100 / 3
   \<and> specWeekStart 1 (localDay 19800000 wednesdayMorning) = 19884
   \<and> updateWeeklyProgress 19800000 wednesdayMorning
        (weekApp \<lparr> settings := defaultSettings \<lparr> weekStartsOn := 0 \<rparr> \<rparr>) = 100 / 3"
proof -
  have east: "(0::int) \<le> 19800000" and below: "19800000 < msPerDay"
    by (simp_all add: msPerDay_def)
  have day: "specWeekStart 1 (localDay 19800000 wednesdayMorning) = 19884"
    by (simp add: specWeekStart_def localDay_def wednesdayMorning_def msPerDay_def getDay_def)
  have share: "completedShare 19884 (19884 + 6) (tasks weekApp) = 100 / 3"
    by (simp add: completedShare_def dueWithin_def weekApp_def withTasks_def emptyApp_def
        doneAt_def sampleTask_def TASK_TEMPLATE_def)
  have a: "updateWeeklyProgress 19800000 wednesdayMorning weekApp = 100 / 3"
    using weeklyProgress_monday_week [OF east below, of wednesdayMorning weekApp] day share
    by simp
  have b: "updateWeeklyProgress 19800000 wednesdayMorning
        (weekApp \<lparr> settings := defaultSettings \<lparr> weekStartsOn := 0 \<rparr> \<rparr>)
      = updateWeeklyProgress 19800000 wednesdayMorning weekApp"
    using weeklyProgress_monday_week [OF east below, of wednesdayMorning weekApp
        "defaultSettings \<lparr> weekStartsOn := 0 \<rparr>"]
    by blast
  show ?thesis
    using a b day by simp
qed

section \<open>The study streak\<close>

lemma keys_pushByDate:
  "map fst (pushByDate m d t) = (if d \<in> fst ` set m then map fst m else map fst m @ [d])"
  by (induction m d t rule: pushByDate.induct) (auto simp: image_iff)

lemma keyset_pushByDate: "fst ` set (pushByDate m d t) = insert d (fst ` set m)"
  using keys_pushByDate [of m d t, THEN arg_cong, of set] by (auto split: if_splits)

lemma keyset_foldl_pushByDate:
  "fst ` set (foldl (\<lambda>m t. pushByDate m (key t) t) m ts) = fst ` set m \<union> key ` set ts"
proof (induction ts arbitrary: m)
  case Nil
  then show ?case by simp
next
  case (Cons t ts)
  have "fst ` set (foldl (\<lambda>m t. pushByDate m (key t) t) (pushByDate m (key t) t) ts)
          = fst ` set (pushByDate m (key t) t) \<union> key ` set ts"
    by (rule Cons.IH)
  then show ?case
    by (simp add: keyset_pushByDate)
qed

lemma distinct_foldl_pushByDate:
  "distinct (map fst m) \<Longrightarrow> distinct (map fst (foldl (\<lambda>m t. pushByDate m (key t) t) m ts))"
proof (induction ts arbitrary: m)
  case Nil
  then show ?case by simp
next
  case (Cons t ts)
  have "distinct (map fst (pushByDate m (key t) t))"
    using Cons.prems by (simp add: keys_pushByDate)
  then have "distinct (map fst (foldl (\<lambda>m t. pushByDate m (key t) t) (pushByDate m (key t) t) ts))"
    by (rule Cons.IH)
  then show ?case by simp
qed

lemma keys_groupByDate:
  "set (map fst (groupByDate z ts)) = (\<lambda>t. zoneDay z (newDate (completedAt t))) ` set ts"
  unfolding groupByDate_def
  using keyset_foldl_pushByDate [of "\<lambda>t. zoneDay z (newDate (completedAt t))" "[]" ts]
  by simp

lemma distinct_groupByDate: "distinct (map fst (groupByDate z ts))"
  unfolding groupByDate_def
  using distinct_foldl_pushByDate [of "[]" "\<lambda>t. zoneDay z (newDate (completedAt t))" ts]
  by simp

lemma completion_days:
  "set (map fst (groupByDate z (filter (\<lambda>t. completed t \<and> completedAt t \<noteq> None) ts)))
     = {d. completedOn z ts d}"
  unfolding keys_groupByDate
proof (intro set_eqI iffI)
  fix d
  assume "d \<in> (\<lambda>t. zoneDay z (newDate (completedAt t)))
                ` set (filter (\<lambda>t. completed t \<and> completedAt t \<noteq> None) ts)"
  then obtain t where t: "t \<in> set ts" "completed t" "completedAt t \<noteq> None"
      and d: "d = zoneDay z (newDate (completedAt t))"
    by auto
  from t obtain c where c: "completedAt t = Some c" by auto
  have "completed t \<and> (case completedAt t of Some c \<Rightarrow> zoneDay z c = d | None \<Rightarrow> False)"
    using t c d by (simp add: newDate_def)
  with t(1) show "d \<in> {d. completedOn z ts d}"
    unfolding completedOn_def by blast
next
  fix d
  assume "d \<in> {d. completedOn z ts d}"
  then obtain t where t: "t \<in> set ts" "completed t"
      and on: "case completedAt t of Some c \<Rightarrow> zoneDay z c = d | None \<Rightarrow> False"
    unfolding completedOn_def by blast
  from on obtain c where c: "completedAt t = Some c" "zoneDay z c = d"
    by (cases "completedAt t") auto
  have "t \<in> set (filter (\<lambda>t. completed t \<and> completedAt t \<noteq> None) ts)"
    using t c by simp
  moreover have "d = zoneDay z (newDate (completedAt t))"
    using c by (simp add: newDate_def)
  ultimately show "d \<in> (\<lambda>t. zoneDay z (newDate (completedAt t)))
                ` set (filter (\<lambda>t. completed t \<and> completedAt t \<noteq> None) ts)"
    by (rule rev_image_eqI)
qed

subsection \<open>In a zone of one offset\<close>

lemma offsetAt_fixedZone: "offsetAt (fixedZone tz) ts = tz"
  by (simp add: offsetAt_def fixedZone_def)

lemma zoneDay_fixedZone: "zoneDay (fixedZone tz) ts = localDay tz ts"
  by (simp add: zoneDay_def localDay_def offsetAt_fixedZone)

lemma zoneMidnight_fixedZone: "zoneMidnight (fixedZone tz) d = localMidnight tz d"
  by (simp add: zoneMidnight_def localMidnight_def fixedZone_def Let_def)

lemma daysDiff: "(localMidnight tz a - localMidnight tz b) div msPerDay = a - b"
proof -
  have "localMidnight tz a - localMidnight tz b = (a - b) * msPerDay"
    by (simp add: localMidnight_def algebra_simps)
  then show ?thesis
    using msPerDay_pos by simp
qed

lemma localMidnight_le: "(localMidnight tz b \<le> localMidnight tz a) = (b \<le> a)"
  using msPerDay_pos by (simp add: localMidnight_def)

lemma localMidnight_diff_le: "(localMidnight tz b - localMidnight tz a \<le> 0) = (b \<le> a)"
  by (simp add: localMidnight_le)

lemma completionDates_descending:
  assumes "distinct ds"
  shows "sorted_wrt (\<lambda>a b. b < a) (sortBy (\<lambda>a b. localMidnight tz b - localMidnight tz a) ds)"
proof -
  let ?cmp = "\<lambda>a b. localMidnight tz b - localMidnight tz a"
  have "sorted_wrt (\<lambda>a b. ?cmp a b \<le> 0) (sortBy ?cmp ds)"
    by (rule sorted_sortBy [where A = UNIV]) (auto simp: localMidnight_le)
  then have le: "sorted_wrt (\<lambda>a b. b \<le> a) (sortBy ?cmp ds)"
    by (simp only: localMidnight_diff_le)
  have dis: "distinct (sortBy ?cmp ds)"
    using assms by (simp add: distinct_sortBy)
  show ?thesis
    unfolding sorted_wrt_iff_nth_less
  proof (intro allI impI)
    fix i j assume ij: "i < j" "j < length (sortBy ?cmp ds)"
    with le have "sortBy ?cmp ds ! j \<le> sortBy ?cmp ds ! i"
      by (simp add: sorted_wrt_iff_nth_less)
    moreover have "sortBy ?cmp ds ! j \<noteq> sortBy ?cmp ds ! i"
      using dis ij by (simp add: nth_eq_iff_index_eq)
    ultimately show "sortBy ?cmp ds ! j < sortBy ?cmp ds ! i" by simp
  qed
qed

text \<open>The loop over days in strictly descending order: started with \<open>streak\<close> days
  counted, when every day still to come is in the future or at least \<open>streak\<close> days
  back, it counts on exactly as long as the next day back is in the list.\<close>

lemma streakLoop_run:
  "sorted_wrt (\<lambda>a b. b < a) ds \<Longrightarrow>
   (\<forall>d \<in> set ds. today - d < 0 \<or> int s \<le> today - d) \<Longrightarrow>
     s \<le> streakLoop (fixedZone tz) (localMidnight tz today) ds s
     \<and> (\<forall>k. s \<le> k \<and> k < streakLoop (fixedZone tz) (localMidnight tz today) ds s
            \<longrightarrow> today - int k \<in> set ds)
     \<and> today - int (streakLoop (fixedZone tz) (localMidnight tz today) ds s) \<notin> set ds"
proof (induction ds arbitrary: s)
  case Nil
  then show ?case by simp
next
  case (Cons d ds)
  let ?z = "fixedZone tz"
  let ?cur = "localMidnight tz today"
  from Cons.prems have later: "\<forall>e \<in> set ds. e < d" and srt: "sorted_wrt (\<lambda>a b. b < a) ds"
    by simp_all
  consider (hit) "today - d = int s" | (gap) "today - d > int s" | (skip) "today - d < int s"
    by linarith
  then show ?case
  proof cases
    case hit
    then have run: "streakLoop ?z ?cur (d # ds) s = streakLoop ?z ?cur ds (Suc s)"
      by (simp add: zoneMidnight_fixedZone daysDiff Let_def)
    have "\<forall>e \<in> set ds. today - e < 0 \<or> int (Suc s) \<le> today - e"
      using later hit by fastforce
    from Cons.IH [OF srt this]
    have ih: "Suc s \<le> streakLoop ?z ?cur ds (Suc s)"
      "\<forall>k. Suc s \<le> k \<and> k < streakLoop ?z ?cur ds (Suc s) \<longrightarrow> today - int k \<in> set ds"
      "today - int (streakLoop ?z ?cur ds (Suc s)) \<notin> set ds"
      by blast+
    have a: "s \<le> streakLoop ?z ?cur ds (Suc s)" using ih(1) by simp
    have b: "\<forall>k. s \<le> k \<and> k < streakLoop ?z ?cur ds (Suc s) \<longrightarrow> today - int k \<in> set (d # ds)"
    proof (intro allI impI)
      fix k assume k: "s \<le> k \<and> k < streakLoop ?z ?cur ds (Suc s)"
      show "today - int k \<in> set (d # ds)"
      proof (cases "k = s")
        case True
        with hit show ?thesis by simp
      next
        case False
        with k have "Suc s \<le> k" by simp
        with k ih(2) show ?thesis by simp
      qed
    qed
    have c: "today - int (streakLoop ?z ?cur ds (Suc s)) \<noteq> d"
      using ih(1) hit by linarith
    show ?thesis
      unfolding run using a b c ih(3) by simp
  next
    case gap
    then have run: "streakLoop ?z ?cur (d # ds) s = s"
      by (simp add: zoneMidnight_fixedZone daysDiff Let_def)
    have "today - int s \<noteq> d" using gap by linarith
    moreover have "today - int s \<notin> set ds"
      using later gap by fastforce
    ultimately show ?thesis
      unfolding run by simp
  next
    case skip
    then have run: "streakLoop ?z ?cur (d # ds) s = streakLoop ?z ?cur ds s"
      by (simp add: zoneMidnight_fixedZone daysDiff Let_def)
    from skip Cons.prems have future: "today - d < 0" by fastforce
    have "\<forall>e \<in> set ds. today - e < 0 \<or> int s \<le> today - e"
      using Cons.prems by simp
    from Cons.IH [OF srt this]
    have ih: "s \<le> streakLoop ?z ?cur ds s"
      "\<forall>k. s \<le> k \<and> k < streakLoop ?z ?cur ds s \<longrightarrow> today - int k \<in> set ds"
      "today - int (streakLoop ?z ?cur ds s) \<notin> set ds"
      by blast+
    have "today - int (streakLoop ?z ?cur ds s) \<noteq> d"
      using future by linarith
    then show ?thesis
      unfolding run using ih by simp
  qed
qed

lemma calculateStudyStreak_loop:
  "calculateStudyStreak z now ts
     = streakLoop z (zoneMidnight z (zoneDay z now))
         (sortBy (\<lambda>a b. zoneMidnight z b - zoneMidnight z a)
            (map fst (groupByDate z (filter (\<lambda>t. completed t \<and> completedAt t \<noteq> None) ts))))
         0"
  by (simp add: calculateStudyStreak_def Let_def groupByDate_def sortBy_def)

text \<open>
  Where the zone keeps one offset the script is right: with \<open>n\<close> its result, each of the
  \<open>n\<close> days today, yesterday, ... has a completion and the day before them has none.
\<close>

lemma studyStreak_fixed_offset:
  "(\<forall>k < calculateStudyStreak (fixedZone tz) now ts.
       completedOn (fixedZone tz) ts (localDay tz now - int k))
   \<and> \<not> completedOn (fixedZone tz) ts
         (localDay tz now - int (calculateStudyStreak (fixedZone tz) now ts))"
proof -
  let ?z = "fixedZone tz"
  let ?keys = "map fst (groupByDate ?z (filter (\<lambda>t. completed t \<and> completedAt t \<noteq> None) ts))"
  let ?ds = "sortBy (\<lambda>a b. localMidnight tz b - localMidnight tz a) ?keys"
  have srt: "sorted_wrt (\<lambda>a b. b < a) ?ds"
    by (rule completionDates_descending) (rule distinct_groupByDate)
  have days: "set ?ds = {d. completedOn ?z ts d}"
    by (simp only: set_sortBy completion_days)
  have loop: "calculateStudyStreak ?z now ts
                = streakLoop ?z (localMidnight tz (localDay tz now)) ?ds 0"
    by (simp add: calculateStudyStreak_loop zoneMidnight_fixedZone zoneDay_fixedZone)
  have "\<forall>d \<in> set ?ds. localDay tz now - d < 0 \<or> int 0 \<le> localDay tz now - d"
    by auto
  from streakLoop_run [OF srt this, of tz]
  show ?thesis
    unfolding loop days by simp
qed

subsection \<open>Across a daylight-saving change\<close>

text \<open>
  Claim C1. In New York on Monday 2024-03-11, the day after the clocks went forward,
  the script divides the distance between local midnights by 24 hours: Sunday's
  midnight is 23 hours back and counts as day 0, Saturday's is 47 hours back and counts
  as day 1.  With completions on Monday, Sunday and Saturday and none on Friday, the
  claim's own example of a streak of 3, it returns 2; with completions on Monday and
  Saturday only, where the run ends at Sunday and the streak is 1, it returns 2 as well.
\<close>

theorem studyStreak_daylight_saving:
  "zoneDay newYork mondayInMarch = 19793
   \<and> completedOn newYork threeDayRun 19793 \<and> completedOn newYork threeDayRun 19792
   \<and> completedOn newYork threeDayRun 19791 \<and> \<not> completedOn newYork threeDayRun 19790
   \<and> calculateStudyStreak newYork mondayInMarch threeDayRun = 2
   \<and> completedOn newYork gapOnSunday 19793 \<and> \<not> completedOn newYork gapOnSunday 19792
   \<and> calculateStudyStreak newYork mondayInMarch gapOnSunday = 2"
  by (simp add: calculateStudyStreak_def groupByDate_def sortBy_def completedOn_def
      zoneDay_def zoneMidnight_def offsetAt_def newYork_def mondayInMarch_def threeDayRun_def
      gapOnSunday_def doneAt_def sampleTask_def TASK_TEMPLATE_def newDate_def msPerDay_def
      Let_def)

theorem studyStreak_daylight_saving_witness:
  "calculateStudyStreak newYork mondayInMarch threeDayRun \<noteq> 3
   \<and> calculateStudyStreak newYork mondayInMarch gapOnSunday \<noteq> 1"
  using studyStreak_daylight_saving by simp

end
